theory Spec2Isabelle
  imports Main "HOL-Library.Word"
begin

unbundle bit_operations_syntax

section \<open>Go maps\<close>

text \<open>
  A value of a Go map type is either \<^verbatim>\<open>nil\<close> or a reference to a hash table. The table
  is a partial function from keys to elements (with a finite domain in every run of a
  program); \<open>None\<close> stands for the nil map. Reading a nil map behaves like reading an
  empty one, \<^verbatim>\<open>delete\<close> on it does nothing, and assigning to an entry of it panics
  (\<^verbatim>\<open>assignment to entry in nil map\<close>).

  Go compares keys with \<^verbatim>\<open>==\<close>, which the model takes to be equality of values. This
  leaves out the floating-point NaN, which is not equal to itself, and interface keys
  of a dynamic type that cannot be hashed.

  The model passes tables by value. Sharing of one table between the container and a
  caller (after \<^verbatim>\<open>Import\<close>) is therefore not represented; every property below looks at
  the container alone.
\<close>

type_synonym ('k, 'v) gomap = "('k \<rightharpoonup> 'v) option"

datatype panic = AssignNilMap

definition entries :: "('k, 'v) gomap \<Rightarrow> ('k \<rightharpoonup> 'v)" where
  "entries mp = (case mp of None \<Rightarrow> Map.empty | Some f \<Rightarrow> f)"

definition go_make :: "('k, 'v) gomap" where
  \<comment> \<open>\<^verbatim>\<open>make(map[K]V)\<close>\<close>
  "go_make = Some Map.empty"

definition go_index :: "'v \<Rightarrow> ('k, 'v) gomap \<Rightarrow> 'k \<Rightarrow> 'v \<times> bool" where
  \<comment> \<open>\<^verbatim>\<open>value, ok = mp[key]\<close>; \<open>zero\<close> is the zero value of the element type\<close>
  "go_index zero mp key = (case entries mp key of None \<Rightarrow> (zero, False) | Some v \<Rightarrow> (v, True))"

definition go_assign :: "('k, 'v) gomap \<Rightarrow> 'k \<Rightarrow> 'v \<Rightarrow> panic + ('k, 'v) gomap" where
  \<comment> \<open>\<^verbatim>\<open>mp[key] = value\<close>\<close>
  "go_assign mp key val = (case mp of None \<Rightarrow> Inl AssignNilMap | Some f \<Rightarrow> Inr (Some (f(key \<mapsto> val))))"

definition go_delete :: "('k, 'v) gomap \<Rightarrow> 'k \<Rightarrow> ('k, 'v) gomap" where
  \<comment> \<open>\<^verbatim>\<open>delete(mp, key)\<close>\<close>
  "go_delete mp key = (case mp of None \<Rightarrow> None | Some f \<Rightarrow> Some (f(key := None)))"

definition go_len :: "('k, 'v) gomap \<Rightarrow> int" where
  \<comment> \<open>\<^verbatim>\<open>len(mp)\<close>\<close>
  "go_len mp = int (card (dom (entries mp)))"

definition go_collect :: "('k, 'v) gomap \<Rightarrow> ('k, 'v) gomap" where
  \<comment> \<open>\<^verbatim>\<open>maps.Collect(maps.All(mp))\<close>: a freshly made map holding every entry of \<open>mp\<close>\<close>
  "go_collect mp = Some (entries mp)"

section \<open>The gob encoding\<close>

text \<open>
  \<^verbatim>\<open>GobEncode\<close> hands the map to \<^verbatim>\<open>gob.Encoder.Encode\<close> and \<^verbatim>\<open>GobDecode\<close> hands a
  pointer to the map field to \<^verbatim>\<open>gob.Decoder.Decode\<close>. Package \<^verbatim>\<open>encoding/gob\<close> belongs to
  the Go standard library; what it does with a map decides what the two methods do, so
  this section models it, following the wire format the package documents and the way
  its decoder fills a map:

  \<^item> an unsigned integer below 128 is one byte; a larger one is its minimal big-endian
    byte string preceded by one byte holding the negated byte count;
  \<^item> a signed integer travels inside an unsigned one, bit 0 saying whether the rest
    is complemented;
  \<^item> a stream is a sequence of messages, each preceded by its byte count;
  \<^item> a map is an unsigned count followed by that many key, element pairs;
  \<^item> the decoder reads the count, replaces a nil destination by a newly made map,
    and then stores every pair into the destination as soon as it has decoded it. A
    destination that is not nil is not emptied first.

  The texts of the library's error messages are abbreviated (numbers it formats into
  them are left out); no property below depends on them.
\<close>

subsection \<open>Errors\<close>

type_synonym byte = "8 word"
type_synonym uint64 = "64 word"
type_synonym int64 = "64 word"

datatype error =
    EOF
  | ErrUnexpectedEOF
  | GobError string
  | Errorf string error

text \<open>
  \<open>EOF\<close> and \<open>ErrUnexpectedEOF\<close> are the two values of package \<^verbatim>\<open>io\<close>, \<open>GobError\<close> is an
  error raised inside the library, and \<open>Errorf msg err\<close> is the value of
  \<^verbatim>\<open>fmt.Errorf(msg + "%w", err)\<close>, which wraps \<open>err\<close>.
\<close>

fun Unwrap :: "error \<Rightarrow> error option" where
  "Unwrap (Errorf msg err) = Some err"
| "Unwrap err = None"

subsection \<open>Integers on the wire\<close>

definition be_bytes :: "uint64 \<Rightarrow> byte list" where
  \<comment> \<open>\<^verbatim>\<open>binary.BigEndian.PutUint64\<close>\<close>
  "be_bytes x =
     [ucast (drop_bit 56 x), ucast (drop_bit 48 x), ucast (drop_bit 40 x), ucast (drop_bit 32 x),
      ucast (drop_bit 24 x), ucast (drop_bit 16 x), ucast (drop_bit 8 x), ucast x]"

definition be_uint :: "byte list \<Rightarrow> uint64" where
  \<comment> \<open>\<^verbatim>\<open>for _, b := range buf { x = x<<8 | uint64(b) }\<close>\<close>
  "be_uint bs = foldl (\<lambda>x b. push_bit 8 x OR ucast b) 0 bs"

definition encodeUint :: "uint64 \<Rightarrow> byte list" where
  \<comment> \<open>\<open>bc\<close> is the number of leading zero bytes, \<^verbatim>\<open>bits.LeadingZeros64(x) >> 3\<close>\<close>
  "encodeUint x =
     (if x \<le> 0x7F then [ucast x]
      else let bc = length (takeWhile (\<lambda>b. b = 0) (be_bytes x))
           in (of_nat bc - 8) # drop bc (be_bytes x))"

definition decodeUint :: "byte list \<Rightarrow> error + uint64 \<times> byte list" where
  \<comment> \<open>reads from a message that is already in memory\<close>
  "decodeUint buf =
     (case buf of
        [] \<Rightarrow> Inl EOF
      | b # rest \<Rightarrow>
          if b \<le> 0x7F then Inr (ucast b, rest)
          else let n = nat (- sint b) in
            if n > 8 then Inl (GobError ''encoded unsigned integer out of range'')
            else if length rest < n then Inl (GobError ''invalid uint data length'')
            else Inr (be_uint (take n rest), drop n rest))"

definition decodeUintReader :: "byte list \<Rightarrow> error + uint64 \<times> byte list" where
  \<comment> \<open>reads from the input stream\<close>
  "decodeUintReader r =
     (case r of
        [] \<Rightarrow> Inl EOF
      | b # rest \<Rightarrow>
          if b \<le> 0x7F then Inr (ucast b, rest)
          else let n = nat (- sint b) in
            if n > 8 then Inl (GobError ''encoded unsigned integer out of range'')
            else if length rest < n then Inl ErrUnexpectedEOF
            else Inr (be_uint (take n rest), drop n rest))"

definition encodeInt :: "int64 \<Rightarrow> byte list" where
  "encodeInt i = encodeUint (if i <s 0 then push_bit 1 (NOT i) OR 1 else push_bit 1 i)"

definition toInt :: "uint64 \<Rightarrow> int64" where
  "toInt x = (if x AND 1 \<noteq> 0 then NOT (drop_bit 1 x) else drop_bit 1 x)"

definition decodeInt :: "byte list \<Rightarrow> error + int64 \<times> byte list" where
  "decodeInt buf =
     (case decodeUint buf of
        Inl err \<Rightarrow> Inl err
      | Inr (x, rest) \<Rightarrow> Inr (toInt x, rest))"

definition nextInt :: "byte list \<Rightarrow> error + int64 \<times> byte list" where
  "nextInt buf =
     (case decodeUintReader buf of
        Inl err \<Rightarrow> Inl err
      | Inr (x, rest) \<Rightarrow> Inr (toInt x, rest))"

subsection \<open>Messages\<close>

definition tooBig :: nat where
  \<comment> \<open>\<^verbatim>\<open>(1 << 30) << (^uint(0) >> 62)\<close> on a 64-bit platform\<close>
  "tooBig = 2 ^ 33"

definition recvMessage :: "byte list \<Rightarrow> error + byte list \<times> byte list" where
  \<comment> \<open>the next message of the stream and what follows it\<close>
  "recvMessage r =
     (case decodeUintReader r of
        Inl err \<Rightarrow> Inl err
      | Inr (nbytes, rest) \<Rightarrow>
          if unat nbytes \<ge> tooBig then Inl (GobError ''invalid message length'')
          else if length rest < unat nbytes then Inl ErrUnexpectedEOF
          else Inr (take (unat nbytes) rest, drop (unat nbytes) rest))"

subsection \<open>Maps\<close>

text \<open>
  The library derives an encoder and a decoder for \<^verbatim>\<open>map[K]V\<close> from the two types by
  reflection. An \<open>engine\<close> holds what it derives:

  \<^item> \<open>enc_key\<close>, \<open>dec_key\<close>, \<open>enc_elem\<close>, \<open>dec_elem\<close>: how one key and one element are
    written and read. Writing fails for a value the library cannot send; reading
    returns the value and the rest of the buffer.
  \<^item> \<open>enc_frame\<close>: everything the encoder puts around the body of the map, that is the
    messages that define the map type followed by the value message holding the body.
    It fails for a type the library cannot describe and for a message that is too big.
  \<^item> \<open>dec_frame\<close>: the decoder's way to the body: it reads the messages, takes in the
    type definitions, checks the type of the value against \<^verbatim>\<open>map[K]V\<close> and returns the
    body. It fails on an empty, truncated or malformed stream and on a value of a
    different type.
\<close>

record ('k, 'v) engine =
  enc_frame :: "byte list \<Rightarrow> error + byte list"
  dec_frame :: "byte list \<Rightarrow> error + byte list"
  enc_key :: "'k \<Rightarrow> error + byte list"
  dec_key :: "byte list \<Rightarrow> error + 'k \<times> byte list"
  enc_elem :: "'v \<Rightarrow> error + byte list"
  dec_elem :: "byte list \<Rightarrow> error + 'v \<times> byte list"

fun encodeEntries :: "('k, 'v) engine \<Rightarrow> ('k \<times> 'v) list \<Rightarrow> error + byte list" where
  "encodeEntries E [] = Inr []"
| "encodeEntries E ((k, v) # ps) =
     (case enc_key E k of
        Inl err \<Rightarrow> Inl err
      | Inr kb \<Rightarrow>
          (case enc_elem E v of
             Inl err \<Rightarrow> Inl err
           | Inr vb \<Rightarrow>
               (case encodeEntries E ps of
                  Inl err \<Rightarrow> Inl err
                | Inr rest \<Rightarrow> Inr (kb @ vb @ rest))))"

definition encodeMap :: "('k, 'v) engine \<Rightarrow> ('k \<times> 'v) list \<Rightarrow> error + byte list" where
  \<comment> \<open>\<open>ps\<close> are the entries in the order in which the iteration over the map visits them\<close>
  "encodeMap E ps =
     (case encodeEntries E ps of
        Inl err \<Rightarrow> Inl err
      | Inr bs \<Rightarrow> Inr (encodeUint (of_nat (length ps)) @ bs))"

fun decodeEntries ::
  "('k, 'v) engine \<Rightarrow> nat \<Rightarrow> byte list \<Rightarrow> ('k \<rightharpoonup> 'v) \<Rightarrow> error option \<times> ('k \<rightharpoonup> 'v)" where
  "decodeEntries E 0 buf tbl = (None, tbl)"
| "decodeEntries E (Suc n) buf tbl =
     (case dec_key E buf of
        Inl err \<Rightarrow> (Some err, tbl)
      | Inr (k, buf1) \<Rightarrow>
          (case dec_elem E buf1 of
             Inl err \<Rightarrow> (Some err, tbl)
           | Inr (v, buf2) \<Rightarrow> decodeEntries E n buf2 (tbl(k \<mapsto> v))))"

definition decodeMap ::
  "('k, 'v) engine \<Rightarrow> byte list \<Rightarrow> ('k, 'v) gomap \<Rightarrow> error option \<times> ('k, 'v) gomap" where
  \<comment> \<open>\<^verbatim>\<open>n := int(state.decodeUint()); if value.IsNil() { value.Set(reflect.MakeMapWithSize(mtyp, n)) }\<close>,
      then \<open>n\<close> times: decode a key, decode an element, \<^verbatim>\<open>value.SetMapIndex(key, elem)\<close>\<close>
  "decodeMap E buf mp =
     (case decodeUint buf of
        Inl err \<Rightarrow> (Some err, mp)
      | Inr (u, rest) \<Rightarrow>
          (case decodeEntries E (nat (sint u)) rest (entries mp) of
             (r, tbl) \<Rightarrow> (r, Some tbl)))"

definition gob_Encode :: "('k, 'v) engine \<Rightarrow> ('k \<times> 'v) list \<Rightarrow> error + byte list" where
  \<comment> \<open>\<^verbatim>\<open>Encoder.Encode\<close> of a map whose iteration visits the entries \<open>ps\<close>; a nil map is
      sent like an empty one\<close>
  "gob_Encode E ps =
     (case encodeMap E ps of
        Inl err \<Rightarrow> Inl err
      | Inr body \<Rightarrow> enc_frame E body)"

definition gob_Decode ::
  "('k, 'v) engine \<Rightarrow> byte list \<Rightarrow> ('k, 'v) gomap \<Rightarrow> error option \<times> ('k, 'v) gomap" where
  \<comment> \<open>\<^verbatim>\<open>Decoder.Decode\<close> of the stream \<open>data\<close> through a pointer to a map variable holding
      \<open>mp\<close>: the error, if any, and what the variable holds afterwards\<close>
  "gob_Decode E data mp =
     (case dec_frame E data of
        Inl err \<Rightarrow> (Some err, mp)
      | Inr body \<Rightarrow> decodeMap E body mp)"

section \<open>The container\<close>

text \<open>
  \<^verbatim>\<open>type CacheMap[K comparable, V any] struct { m map[K]V; lock sync.RWMutex }\<close>

  The mutex orders concurrent callers and holds no part of the mapping. Each locked
  method runs its \<^verbatim>\<open>WithoutLock\<close> body between an acquire and the deferred release, so
  in a sequential run that starts with the mutex free the four lock methods leave the
  modelled state as it is. They are kept as functions so that every method reads like
  its source.

  Methods have pointer receivers. A method that returns nothing is modelled by the
  container it leaves behind; every other method returns its result together with that
  container. \<^verbatim>\<open>SetWithoutLock\<close> can panic, which is reported as \<open>Some p\<close> next to the
  container as the panic leaves it.
\<close>

record ('k, 'v) CacheMap =
  m :: "('k, 'v) gomap"

definition NewCacheMap :: "('k, 'v) CacheMap" where
  "NewCacheMap = \<lparr>m = go_make\<rparr>"

definition Lock :: "('k, 'v) CacheMap \<Rightarrow> ('k, 'v) CacheMap" where
  "Lock cm = cm"

definition Unlock :: "('k, 'v) CacheMap \<Rightarrow> ('k, 'v) CacheMap" where
  "Unlock cm = cm"

definition RLock :: "('k, 'v) CacheMap \<Rightarrow> ('k, 'v) CacheMap" where
  "RLock cm = cm"

definition RUnlock :: "('k, 'v) CacheMap \<Rightarrow> ('k, 'v) CacheMap" where
  "RUnlock cm = cm"

definition DeleteWithoutLock :: "'k \<Rightarrow> ('k, 'v) CacheMap \<Rightarrow> ('k, 'v) CacheMap" where
  "DeleteWithoutLock key cm = cm\<lparr>m := go_delete (m cm) key\<rparr>"

definition Delete :: "'k \<Rightarrow> ('k, 'v) CacheMap \<Rightarrow> ('k, 'v) CacheMap" where
  "Delete key cm = Unlock (DeleteWithoutLock key (Lock cm))"

definition GetWithoutLock :: "'v \<Rightarrow> 'k \<Rightarrow> ('k, 'v) CacheMap \<Rightarrow> ('v \<times> bool) \<times> ('k, 'v) CacheMap" where
  "GetWithoutLock zero key cm = (go_index zero (m cm) key, cm)"

definition Get :: "'v \<Rightarrow> 'k \<Rightarrow> ('k, 'v) CacheMap \<Rightarrow> ('v \<times> bool) \<times> ('k, 'v) CacheMap" where
  "Get zero key cm = (case GetWithoutLock zero key (RLock cm) of (r, cm') \<Rightarrow> (r, RUnlock cm'))"

definition SetWithoutLock :: "'k \<Rightarrow> 'v \<Rightarrow> ('k, 'v) CacheMap \<Rightarrow> panic option \<times> ('k, 'v) CacheMap" where
  "SetWithoutLock key val cm =
     (case go_assign (m cm) key val of
        Inl p \<Rightarrow> (Some p, cm)
      | Inr mp \<Rightarrow> (None, cm\<lparr>m := mp\<rparr>))"

definition Set :: "'k \<Rightarrow> 'v \<Rightarrow> ('k, 'v) CacheMap \<Rightarrow> panic option \<times> ('k, 'v) CacheMap" where
  \<comment> \<open>the deferred \<^verbatim>\<open>Unlock\<close> runs whether the body returns or panics\<close>
  "Set key val cm = (case SetWithoutLock key val (Lock cm) of (p, cm') \<Rightarrow> (p, Unlock cm'))"

definition LenWithoutLock :: "('k, 'v) CacheMap \<Rightarrow> int \<times> ('k, 'v) CacheMap" where
  "LenWithoutLock cm = (go_len (m cm), cm)"

definition Len :: "('k, 'v) CacheMap \<Rightarrow> int \<times> ('k, 'v) CacheMap" where
  "Len cm = (case LenWithoutLock (RLock cm) of (n, cm') \<Rightarrow> (n, RUnlock cm'))"

definition ClearWithoutLock :: "('k, 'v) CacheMap \<Rightarrow> ('k, 'v) CacheMap" where
  "ClearWithoutLock cm = cm\<lparr>m := go_make\<rparr>"

definition Clear :: "('k, 'v) CacheMap \<Rightarrow> ('k, 'v) CacheMap" where
  "Clear cm = Unlock (ClearWithoutLock (Lock cm))"

definition ExportWithoutLock :: "('k, 'v) CacheMap \<Rightarrow> ('k, 'v) gomap \<times> ('k, 'v) CacheMap" where
  "ExportWithoutLock cm = (go_collect (m cm), cm)"

definition Export :: "('k, 'v) CacheMap \<Rightarrow> ('k, 'v) gomap \<times> ('k, 'v) CacheMap" where
  "Export cm = (case ExportWithoutLock (RLock cm) of (mp, cm') \<Rightarrow> (mp, RUnlock cm'))"

definition ImportWithoutLock :: "('k, 'v) gomap \<Rightarrow> ('k, 'v) CacheMap \<Rightarrow> ('k, 'v) CacheMap" where
  "ImportWithoutLock mp cm = cm\<lparr>m := mp\<rparr>"

definition Import :: "('k, 'v) gomap \<Rightarrow> ('k, 'v) CacheMap \<Rightarrow> ('k, 'v) CacheMap" where
  "Import mp cm = Unlock (ImportWithoutLock mp (Lock cm))"

text \<open>
  The order in which Go iterates over a map is not specified and changes from run to
  run. \<open>go_range order mp\<close> are the entries of \<open>mp\<close> as an iteration meets them when it
  visits the keys in the order \<open>order\<close>; the order is an argument of \<^verbatim>\<open>GobEncode\<close>,
  whose encoder iterates over the map.
\<close>

definition go_range :: "'k list \<Rightarrow> ('k, 'v) gomap \<Rightarrow> ('k \<times> 'v) list" where
  "go_range order mp = List.map_filter (\<lambda>k. map_option (Pair k) (entries mp k)) order"

definition GobEncode ::
  "('k, 'v) engine \<Rightarrow> 'k list \<Rightarrow> ('k, 'v) CacheMap \<Rightarrow> (error + byte list) \<times> ('k, 'v) CacheMap" where
  "GobEncode E order cm =
     (let cm1 = RLock cm in
      (case gob_Encode E (go_range order (m cm1)) of
         Inl err \<Rightarrow> (Inl (Errorf ''gob encode error: '' err), RUnlock cm1)
       | Inr bs \<Rightarrow> (Inr bs, RUnlock cm1)))"

definition GobDecode ::
  "('k, 'v) engine \<Rightarrow> byte list \<Rightarrow> ('k, 'v) CacheMap \<Rightarrow> error option \<times> ('k, 'v) CacheMap" where
  \<comment> \<open>the decoder writes through \<^verbatim>\<open>&cm.m\<close>: the field holds what the decoder leaves in it,
      whether \<^verbatim>\<open>Decode\<close> succeeds or fails\<close>
  "GobDecode E data cm =
     (let cm1 = Lock cm in
      (case gob_Decode E data (m cm1) of
         (Some err, mp) \<Rightarrow> (Some (Errorf ''gob decode error: '' err), Unlock (cm1\<lparr>m := mp\<rparr>))
       | (None, mp) \<Rightarrow> (None, Unlock (cm1\<lparr>m := mp\<rparr>))))"

section \<open>Two engines\<close>

text \<open>
  The examples below run the container at \<^verbatim>\<open>CacheMap[string, int]\<close> on a 64-bit
  platform. Strings are sent as an unsigned count followed by their bytes, integers as
  signed integers.
\<close>

definition byte_of_char :: "char \<Rightarrow> byte" where
  "byte_of_char c = of_nat (of_char c)"

definition char_of_byte :: "byte \<Rightarrow> char" where
  "char_of_byte b = char_of (unat b)"

definition encString :: "string \<Rightarrow> error + byte list" where
  "encString s = Inr (encodeUint (of_nat (length s)) @ map byte_of_char s)"

definition decString :: "byte list \<Rightarrow> error + string \<times> byte list" where
  "decString buf =
     (case decodeUint buf of
        Inl err \<Rightarrow> Inl err
      | Inr (u, rest) \<Rightarrow>
          let n = sint u in
          if n < 0 \<or> int (length rest) < n \<or> int tooBig \<le> n
          then Inl (GobError ''bad string slice length'')
          else Inr (map char_of_byte (take (nat n) rest), drop (nat n) rest))"

definition encInt :: "int64 \<Rightarrow> error + byte list" where
  "encInt i = Inr (encodeInt i)"

definition decInt :: "byte list \<Rightarrow> error + int64 \<times> byte list" where
  "decInt buf = decodeInt buf"

text \<open>
  A stream that carries one map consists of two messages. The first defines the map
  type: the negated type id, then the descriptor of the type. The second carries the
  value: the type id, a zero byte (the value is not a struct), and the body.
  \<open>sendValue\<close> writes this stream for the type id \<open>tid\<close> and the descriptor \<open>wire\<close>, and
  \<open>recvValue\<close> reads it. The library's decoder accepts further streams (other ids,
  several definitions); \<open>recvValue\<close> answers those with a type mismatch, and no
  property below decodes one.
\<close>

definition sendValue :: "int64 \<Rightarrow> byte list \<Rightarrow> byte list \<Rightarrow> error + byte list" where
  "sendValue tid wire body =
     (let def_msg = encodeInt (- tid) @ wire;
          val_msg = encodeInt tid @ [0] @ body
      in if length def_msg \<ge> tooBig \<or> length val_msg \<ge> tooBig
         then Inl (GobError ''encoder: message too big'')
         else Inr (encodeUint (of_nat (length def_msg)) @ def_msg @
                   encodeUint (of_nat (length val_msg)) @ val_msg))"

definition recvValue :: "int64 \<Rightarrow> byte list \<Rightarrow> byte list \<Rightarrow> error + byte list" where
  "recvValue tid wire r =
     (case recvMessage r of
        Inl err \<Rightarrow> Inl err
      | Inr (msg1, r1) \<Rightarrow>
          (case nextInt msg1 of
             Inl err \<Rightarrow> Inl err
           | Inr (id1, desc) \<Rightarrow>
               if id1 \<noteq> - tid \<or> desc \<noteq> wire then Inl (GobError ''type mismatch'')
               else
                 (case recvMessage r1 of
                    Inl err \<Rightarrow> Inl (if err = EOF then ErrUnexpectedEOF else err)
                  | Inr (msg2, r2) \<Rightarrow>
                      (case nextInt msg2 of
                         Inl err \<Rightarrow> Inl err
                       | Inr (id2, val) \<Rightarrow>
                           if id2 \<noteq> tid then Inl (GobError ''type mismatch'')
                           else
                             (case decodeUint val of
                                Inl err \<Rightarrow> Inl err
                              | Inr (delta, body) \<Rightarrow>
                                  if delta \<noteq> 0
                                  then Inl (GobError ''decode: corrupted data: non-zero delta for singleton'')
                                  else Inr body)))))"

text \<open>
  The descriptor of \<^verbatim>\<open>map[string]int\<close> under the id 65, which the first type a process
  sends receives: field 4 of the wire type (a map type), in it the common part with no
  name and the id 65, the key type 6 (string) and the element type 2 (int).
\<close>

definition wire_map_string_int :: "byte list" where
  "wire_map_string_int = [0x04, 0x01, 0x02, 0xFF, 0x82, 0x00, 0x01, 0x0C, 0x01, 0x04, 0x00, 0x00]"

definition gob_string_int :: "(string, int64) engine" where
  "gob_string_int =
     \<lparr>enc_frame = sendValue 65 wire_map_string_int,
      dec_frame = recvValue 65 wire_map_string_int,
      enc_key = encString, dec_key = decString,
      enc_elem = encInt, dec_elem = decInt\<rparr>"

text \<open>
  The second engine is that of \<^verbatim>\<open>map[string]any\<close> in a program that has registered no
  type with \<^verbatim>\<open>gob.Register\<close>. An element is represented by the name of its dynamic type;
  the library cannot send it, nor find a type for a name it reads.
\<close>

definition wire_map_string_any :: "byte list" where
  "wire_map_string_any = [0x04, 0x01, 0x02, 0xFF, 0x82, 0x00, 0x01, 0x0C, 0x01, 0x10, 0x00, 0x00]"

definition gob_string_any :: "(string, string) engine" where
  "gob_string_any =
     \<lparr>enc_frame = sendValue 65 wire_map_string_any,
      dec_frame = recvValue 65 wire_map_string_any,
      enc_key = encString, dec_key = decString,
      enc_elem = (\<lambda>t. Inl (GobError (''type not registered for interface: '' @ t))),
      dec_elem = (\<lambda>buf. Inl (GobError ''name not registered for interface''))\<rparr>"

text \<open>Byte strings used in the examples.\<close>

definition bytes_b2 :: "byte list" where
  \<comment> \<open>what \<^verbatim>\<open>Encode\<close> writes for \<^verbatim>\<open>map[string]int{"b": 2}\<close>\<close>
  "bytes_b2 =
     [0x0E, 0xFF, 0x81, 0x04, 0x01, 0x02, 0xFF, 0x82, 0x00, 0x01, 0x0C, 0x01, 0x04, 0x00, 0x00,
      0x07, 0xFF, 0x82, 0x00, 0x01, 0x01, 0x62, 0x04]"

definition bytes_xy :: "byte list" where
  \<comment> \<open>what \<^verbatim>\<open>Encode\<close> writes for \<^verbatim>\<open>map[string]int{"x": 10, "y": 20}\<close>, \<^verbatim>\<open>x\<close> visited first\<close>
  "bytes_xy =
     [0x0E, 0xFF, 0x81, 0x04, 0x01, 0x02, 0xFF, 0x82, 0x00, 0x01, 0x0C, 0x01, 0x04, 0x00, 0x00,
      0x0A, 0xFF, 0x82, 0x00, 0x02, 0x01, 0x78, 0x14, 0x01, 0x79, 0x28]"

definition bytes_truncated :: "byte list" where
  \<comment> \<open>\<open>bytes_b2\<close> without its last three bytes\<close>
  "bytes_truncated =
     [0x0E, 0xFF, 0x81, 0x04, 0x01, 0x02, 0xFF, 0x82, 0x00, 0x01, 0x0C, 0x01, 0x04, 0x00, 0x00,
      0x07, 0xFF, 0x82, 0x00, 0x01]"

definition bytes_malformed :: "byte list" where
  \<comment> \<open>the first byte announces an unsigned integer of sixteen bytes\<close>
  "bytes_malformed = [0xF0, 0x01]"

definition bytes_other_type :: "byte list" where
  \<comment> \<open>what \<^verbatim>\<open>Encode\<close> writes for the empty \<^verbatim>\<open>map[string]any{}\<close>\<close>
  "bytes_other_type =
     [0x0E, 0xFF, 0x81, 0x04, 0x01, 0x02, 0xFF, 0x82, 0x00, 0x01, 0x0C, 0x01, 0x10, 0x00, 0x00,
      0x04, 0xFF, 0x82, 0x00, 0x00]"

definition bytes_bad_second_key :: "byte list" where
  \<comment> \<open>a map of two entries: \<^verbatim>\<open>"a": 7\<close>, then a key announced as five bytes long of which
      one byte is there\<close>
  "bytes_bad_second_key =
     [0x0E, 0xFF, 0x81, 0x04, 0x01, 0x02, 0xFF, 0x82, 0x00, 0x01, 0x0C, 0x01, 0x04, 0x00, 0x00,
      0x09, 0xFF, 0x82, 0x00, 0x02, 0x01, 0x61, 0x0E, 0x05, 0x63]"

text \<open>Containers used in the examples: after \<^verbatim>\<open>Set("a", 1)\<close>, and after
  \<^verbatim>\<open>Set("x", 10); Set("y", 20)\<close>, both on a newly constructed container.\<close>

definition cm_a1 :: "(string, int64) CacheMap" where
  "cm_a1 = snd (Set ''a'' 1 NewCacheMap)"

definition cm_xy :: "(string, int64) CacheMap" where
  "cm_xy = snd (Set ''y'' 20 (snd (Set ''x'' 10 NewCacheMap)))"

section \<open>Notions used in the statements\<close>

text \<open>
  A value is serializable when the decoder reads it back from whatever bytes the
  encoder writes for it, and stops where those bytes end. The entries of a map are
  serializable when their keys and elements are and the decoder finds the body again
  that the encoder has framed.
\<close>

definition roundtrips ::
  "('a \<Rightarrow> error + byte list) \<Rightarrow> (byte list \<Rightarrow> error + 'a \<times> byte list) \<Rightarrow> 'a \<Rightarrow> bool" where
  "roundtrips enc dec x \<longleftrightarrow> (\<forall>bs rest. enc x = Inr bs \<longrightarrow> dec (bs @ rest) = Inr (x, rest))"

definition serializable :: "('k, 'v) engine \<Rightarrow> ('k \<times> 'v) list \<Rightarrow> bool" where
  "serializable E ps \<longleftrightarrow>
     (\<forall>(k, v) \<in> set ps.
        roundtrips (enc_key E) (dec_key E) k \<and> roundtrips (enc_elem E) (dec_elem E) v) \<and>
     (\<forall>body data.
        encodeMap E ps = Inr body \<longrightarrow> enc_frame E body = Inr data \<longrightarrow> dec_frame E data = Inr body)"

text \<open>
  \<open>wire_entries E data\<close> are the key, element pairs that \<^verbatim>\<open>Decode\<close> reads off \<open>data\<close>, in
  their order, up to the end of the map or to the first failure; \<open>store\<close> puts a list of
  pairs into a table, one after the other.
\<close>

fun readEntries :: "('k, 'v) engine \<Rightarrow> nat \<Rightarrow> byte list \<Rightarrow> ('k \<times> 'v) list \<times> error option" where
  "readEntries E 0 buf = ([], None)"
| "readEntries E (Suc n) buf =
     (case dec_key E buf of
        Inl err \<Rightarrow> ([], Some err)
      | Inr (k, buf1) \<Rightarrow>
          (case dec_elem E buf1 of
             Inl err \<Rightarrow> ([], Some err)
           | Inr (v, buf2) \<Rightarrow>
               (case readEntries E n buf2 of (ps, r) \<Rightarrow> ((k, v) # ps, r))))"

definition wire_entries :: "('k, 'v) engine \<Rightarrow> byte list \<Rightarrow> ('k \<times> 'v) list" where
  "wire_entries E data =
     (case dec_frame E data of
        Inl err \<Rightarrow> []
      | Inr body \<Rightarrow>
          (case decodeUint body of
             Inl err \<Rightarrow> []
           | Inr (u, rest) \<Rightarrow> fst (readEntries E (nat (sint u)) rest)))"

definition store :: "('k \<times> 'v) list \<Rightarrow> ('k \<rightharpoonup> 'v) \<Rightarrow> ('k \<rightharpoonup> 'v)" where
  "store ps tbl = fold (\<lambda>(k, v) t. t(k \<mapsto> v)) ps tbl"

fun be_take :: "nat \<Rightarrow> uint64 \<Rightarrow> byte list" where
  \<comment> \<open>the \<open>n\<close> low bytes of \<open>x\<close>, highest first\<close>
  "be_take 0 x = []"
| "be_take (Suc n) x = be_take n (drop_bit 8 x) @ [ucast x]"

section \<open>Properties of the mapping operations\<close>

lemmas lock_defs = Lock_def Unlock_def RLock_def RUnlock_def

lemmas method_defs =
  Delete_def DeleteWithoutLock_def Get_def GetWithoutLock_def Set_def SetWithoutLock_def
  Len_def LenWithoutLock_def Clear_def ClearWithoutLock_def Export_def ExportWithoutLock_def
  Import_def ImportWithoutLock_def NewCacheMap_def

lemmas gomap_defs =
  entries_def go_make_def go_index_def go_assign_def go_delete_def go_len_def go_collect_def

lemma Get_eq: "Get zero key cm = (go_index zero (m cm) key, cm)"
  by (simp add: Get_def GetWithoutLock_def lock_defs)

lemma Set_eq:
  "Set key val cm =
     (case m cm of None \<Rightarrow> (Some AssignNilMap, cm)
      | Some f \<Rightarrow> (None, cm\<lparr>m := Some (f(key \<mapsto> val))\<rparr>))"
  by (simp add: Set_def SetWithoutLock_def lock_defs go_assign_def split: option.splits)

lemma Delete_eq: "Delete key cm = cm\<lparr>m := go_delete (m cm) key\<rparr>"
  by (simp add: Delete_def DeleteWithoutLock_def lock_defs)

lemma entries_Set:
  "entries (m (snd (Set key val cm))) k =
     (if m cm = None then None else if k = key then Some val else entries (m cm) k)"
  by (simp add: Set_eq entries_def split: option.splits)

lemma entries_Delete: "entries (m (Delete key cm)) k = (if k = key then None else entries (m cm) k)"
  by (simp add: Delete_eq go_delete_def entries_def split: option.splits)

text \<open>
  In a sequential run every locked method does what its \<^verbatim>\<open>WithoutLock\<close> body does, so
  the properties below, stated for the locked methods, hold for both.
\<close>

lemma locked_methods:
  "Delete key cm = DeleteWithoutLock key cm"
  "Get zero key cm = GetWithoutLock zero key cm"
  "Set key val cm = SetWithoutLock key val cm"
  "Len cm = LenWithoutLock cm"
  "Clear cm = ClearWithoutLock cm"
  "Export cm = ExportWithoutLock cm"
  "Import mp cm = ImportWithoutLock mp cm"
  by (simp_all add: method_defs lock_defs)

text \<open>
  Claim C4. \<^verbatim>\<open>Import(mp)\<close> replaces the whole contents: whatever the container held
  before, \<^verbatim>\<open>Export()\<close> afterwards holds exactly the entries of \<open>mp\<close> (same keys, same
  value per key; none when \<open>mp\<close> is the nil map), and a key that \<open>mp\<close> does not bind is
  not found any more, also when it was bound before the call.
\<close>

theorem Import_replaces:
  "entries (fst (Export (Import mp cm))) = entries mp \<and>
   (\<forall>k. entries mp k = None \<longrightarrow> fst (Get zero k (Import mp cm)) = (zero, False))"
  by (simp add: method_defs lock_defs gomap_defs)

theorem Import_replaces_witness:
  "fst (Get 0 ''a'' cm_a1) = (1, True) \<and>
   entries (Some [''b'' \<mapsto> 2]) ''a'' = (None :: int64 option) \<and>
   entries (fst (Export (Import (Some [''b'' \<mapsto> 2]) cm_a1))) = [''b'' \<mapsto> 2] \<and>
   fst (Get 0 ''a'' (Import (Some [''b'' \<mapsto> 2]) cm_a1)) = (0, False)"
  using Import_replaces [of "Some [''b'' \<mapsto> 2]" cm_a1 0]
  by (simp add: cm_a1_def method_defs lock_defs gomap_defs)

text \<open>
  Claim C5, as the code has it. On a container whose storage is allocated (not the nil
  map), \<^verbatim>\<open>Set(k, v1); Set(k, v2)\<close> both return normally and \<^verbatim>\<open>Get(k)\<close> then returns
  \<open>(v2, true)\<close>: the second value replaces the first.
\<close>

theorem Set_overwrites:
  "m cm \<noteq> None \<Longrightarrow>
   fst (Set k v1 cm) = None \<and>
   fst (Set k v2 (snd (Set k v1 cm))) = None \<and>
   fst (Get zero k (snd (Set k v2 (snd (Set k v1 cm))))) = (v2, True)"
  by (auto simp add: Set_eq Get_eq go_index_def entries_def)

theorem Set_overwrites_witness:
  "m cm_a1 \<noteq> None \<and>
   fst (Set ''a'' 2 cm_a1) = None \<and>
   fst (Set ''a'' 3 (snd (Set ''a'' 2 cm_a1))) = None \<and>
   fst (Get 0 ''a'' (snd (Set ''a'' 3 (snd (Set ''a'' 2 cm_a1))))) = (3, True)"
  using Set_overwrites [of cm_a1 "''a''" 2 3 0]
  by (simp add: cm_a1_def method_defs lock_defs gomap_defs)

text \<open>
  Claim C5 as stated fails on a container whose storage is the nil map, which
  \<^verbatim>\<open>Import(nil)\<close> produces (as does the zero value of the struct): \<^verbatim>\<open>Set\<close> panics and
  nothing is stored. A caller that recovers from the panic of each of the two calls
  finds the key still absent.
\<close>

theorem Set_nil_map_counterexample:
  "fst (Set ''a'' (1 :: int64) (Import None NewCacheMap)) = Some AssignNilMap \<and>
   fst (Get 0 ''a'' (snd (Set ''a'' (2 :: int64) (snd (Set ''a'' 1 (Import None NewCacheMap))))))
     = (0, False)"
  by (simp add: method_defs lock_defs gomap_defs)

text \<open>
  Claim C6. \<^verbatim>\<open>Get\<close> on a key that is not bound returns the zero value of the element
  type together with \<open>false\<close>; in particular every key of a newly constructed container
  is reported so. \<^verbatim>\<open>Get\<close> has no error result and cannot panic (its result is the pair
  alone), and it leaves the container as it found it.
\<close>

theorem Get_absent:
  "(entries (m cm) k = None \<longrightarrow> fst (Get zero k cm) = (zero, False)) \<and>
   fst (Get zero k NewCacheMap) = (zero, False) \<and>
   snd (Get zero k cm) = cm"
  by (simp add: Get_eq go_index_def NewCacheMap_def go_make_def entries_def)

theorem Get_absent_witness:
  "entries (m cm_a1) ''b'' = None \<and>
   fst (Get 0 ''b'' cm_a1) = (0, False) \<and>
   fst (Get 0 ''a'' cm_a1) = (1, True) \<and>
   snd (Get 0 ''b'' cm_a1) = cm_a1"
  using Get_absent [of cm_a1 "''b''" 0]
  by (simp add: cm_a1_def method_defs lock_defs gomap_defs)

text \<open>
  Claim C7. After \<^verbatim>\<open>Clear()\<close>, whatever the container held, \<^verbatim>\<open>Len()\<close> is 0, \<^verbatim>\<open>Get\<close>
  finds no key (so none of those bound before), and the container equals a newly
  constructed one.
\<close>

theorem Clear_empties:
  "fst (Len (Clear cm)) = 0 \<and>
   fst (Get zero k (Clear cm)) = (zero, False) \<and>
   Clear cm = NewCacheMap"
  by (simp add: method_defs lock_defs gomap_defs)

text \<open>
  Claim C8. \<^verbatim>\<open>Delete\<close> returns nothing and cannot fail. Deleting a key that is not
  bound leaves the container exactly as it was, a deleted key is not found afterwards,
  and deleting the same key a second time changes nothing further.
\<close>

theorem Delete_idempotent:
  "(entries (m cm) k = None \<longrightarrow> Delete k cm = cm) \<and>
   fst (Get zero k (Delete k cm)) = (zero, False) \<and>
   Delete k (Delete k cm) = Delete k cm"
proof -
  have absent: "Delete k cm = cm" if "entries (m cm) k = None"
  proof (cases "m cm")
    case None
    then show ?thesis by (simp add: Delete_eq go_delete_def)
  next
    case (Some f)
    with that have "f(k := None) = f" by (simp add: entries_def fun_upd_idem)
    with Some show ?thesis by (simp add: Delete_eq go_delete_def)
  qed
  have gone: "fst (Get zero k (Delete k cm)) = (zero, False)"
    by (simp add: Get_eq go_index_def entries_Delete)
  have twice: "Delete k (Delete k cm) = Delete k cm"
    by (cases "m cm") (simp_all add: Delete_eq go_delete_def)
  from absent gone twice show ?thesis by blast
qed

theorem Delete_idempotent_witness:
  "entries (m cm_a1) ''b'' = None \<and>
   Delete ''b'' cm_a1 = cm_a1 \<and>
   fst (Get 0 ''a'' (Delete ''a'' cm_a1)) = (0, False) \<and>
   Delete ''a'' (Delete ''a'' cm_a1) = Delete ''a'' cm_a1"
  using Delete_idempotent [of cm_a1 "''b''" 0] Delete_idempotent [of cm_a1 "''a''" 0]
  by (simp add: cm_a1_def method_defs lock_defs gomap_defs)

text \<open>
  Claim C10. Frame property per key: for \<open>k'\<close> different from \<open>k\<close>, what \<^verbatim>\<open>Get(k')\<close>
  returns is the same before and after \<^verbatim>\<open>Set(k, v)\<close>, and the same before and after
  \<^verbatim>\<open>Delete(k)\<close>. This covers the nil map too, where \<^verbatim>\<open>Set\<close> panics and stores nothing.
\<close>

theorem other_keys_kept:
  "k' \<noteq> k \<Longrightarrow>
   fst (Get zero k' (snd (Set k v cm))) = fst (Get zero k' cm) \<and>
   fst (Get zero k' (Delete k cm)) = fst (Get zero k' cm)"
  by (simp add: Get_eq go_index_def entries_Set entries_Delete) (simp add: entries_def)

theorem other_keys_kept_witness:
  "''a'' \<noteq> ''b'' \<and>
   fst (Get 0 ''a'' (snd (Set ''b'' 5 cm_a1))) = (1, True) \<and>
   fst (Get 0 ''a'' (Delete ''b'' cm_a1)) = (1, True)"
  using other_keys_kept [of "''a''" "''b''" 0 5 cm_a1]
  by (simp add: cm_a1_def method_defs lock_defs gomap_defs)

section \<open>Properties of the wire integers\<close>

lemma be_bytes_take: "be_bytes x = be_take 8 x"
  by (simp add: be_bytes_def eval_nat_numeral drop_bit_drop_bit)

lemma foldl_be_take:
  "foldl (\<lambda>x b. push_bit 8 x OR ucast b) a (be_take n x) = push_bit (8 * n) a OR take_bit (8 * n) x"
proof (induction n arbitrary: x)
  case 0
  then show ?case by simp
next
  case (Suc n)
  show ?case
    apply (simp add: Suc)
    apply (rule bit_word_eqI)
    apply (auto simp add: bit_simps)
    done
qed

lemma be_uint_be_bytes: "be_uint (be_bytes x) = x"
  by (simp add: be_uint_def be_bytes_take foldl_be_take take_bit_word_eq_self)

lemma be_uint_zeros: "be_uint (replicate k 0 @ bs) = be_uint bs"
  by (induction k) (simp_all add: be_uint_def)

lemma length_be_bytes: "length (be_bytes x) = 8"
  by (simp add: be_bytes_def)

lemma be_uint_drop_zeros:
  "be_uint (drop (length (takeWhile (\<lambda>b. b = 0) (be_bytes x))) (be_bytes x)) = x"
proof -
  let ?z = "takeWhile (\<lambda>b. b = 0) (be_bytes x)"
  have "?z = replicate (length ?z) 0"
    by (metis (mono_tags, lifting) replicate_length_same set_takeWhileD)
  moreover have "be_bytes x = ?z @ drop (length ?z) (be_bytes x)"
    by (metis append_take_drop_id takeWhile_eq_take)
  ultimately have "be_uint (be_bytes x) = be_uint (drop (length ?z) (be_bytes x))"
    by (metis be_uint_zeros)
  then show ?thesis by (simp add: be_uint_be_bytes)
qed

lemma leading_zero_bytes_le:
  assumes "x \<noteq> 0"
  shows "length (takeWhile (\<lambda>b. b = 0) (be_bytes x)) \<le> 7"
proof (rule ccontr)
  let ?z = "takeWhile (\<lambda>b. b = 0) (be_bytes x)"
  assume "\<not> length ?z \<le> 7"
  moreover have "length ?z \<le> 8"
    by (metis length_be_bytes length_takeWhile_le)
  ultimately have "length ?z = 8" by simp
  then have "drop (length ?z) (be_bytes x) = []" by (simp add: length_be_bytes)
  then have "x = be_uint []" using be_uint_drop_zeros [of x] by simp
  with assms show False by (simp add: be_uint_def)
qed

lemma marker_byte:
  assumes "bc \<le> 7"
  shows "\<not> (of_nat bc - 8 :: byte) \<le> 0x7F \<and> nat (- sint (of_nat bc - 8 :: byte)) = 8 - bc"
proof -
  from assms consider "bc = 0" | "bc = 1" | "bc = 2" | "bc = 3" | "bc = 4" | "bc = 5" | "bc = 6" | "bc = 7"
    by linarith
  then show ?thesis
    by cases (simp_all add: word_le_nat_alt unsigned_minus_1_eq_mask mask_eq_exp_minus_1)
qed

lemma ucast_small:
  "(x :: uint64) \<le> 0x7F \<Longrightarrow> ucast (ucast x :: byte) = x \<and> (ucast x :: byte) \<le> 0x7F"
  by (simp add: word_le_nat_alt word_unat_eq_iff unsigned_ucast_eq take_bit_eq_mod unat_mod_distrib)

text \<open>An unsigned integer is read back from its encoding, whatever follows it.\<close>

lemma decodeUint_encodeUint: "decodeUint (encodeUint x @ rest) = Inr (x, rest)"
proof (cases "x \<le> 0x7F")
  case True
  with ucast_small [OF True] show ?thesis
    by (simp add: encodeUint_def decodeUint_def)
next
  case False
  let ?bc = "length (takeWhile (\<lambda>b. b = 0) (be_bytes x))"
  from False have "x \<noteq> 0" by auto
  then have bc: "?bc \<le> 7" by (rule leading_zero_bytes_le)
  have len: "length (drop ?bc (be_bytes x)) = 8 - ?bc" by (simp add: length_be_bytes)
  from False marker_byte [OF bc] len show ?thesis
    by (simp add: encodeUint_def decodeUint_def Let_def be_uint_drop_zeros)
qed

lemma count_roundtrip:
  assumes "n < 2 ^ 63"
  shows "nat (sint (of_nat n :: uint64)) = n"
proof -
  have "sint (of_nat n :: uint64) = int n"
    using assms by (simp add: signed_of_nat signed_take_bit_int_eq_self)
  then show ?thesis by simp
qed

section \<open>Properties of Encode and Decode\<close>

subsection \<open>The library on maps\<close>

lemma store_eq: "store ps tbl = tbl ++ map_of (rev ps)"
  by (induction ps arbitrary: tbl) (auto simp add: store_def map_add_upd_left)

lemma store_other:
  assumes "k \<notin> fst ` set ps"
  shows "store ps tbl k = tbl k"
proof -
  from assms have "map_of (rev ps) k = None"
    by (simp add: map_of_eq_None_iff)
  then show ?thesis by (simp add: store_eq map_add_def)
qed

lemma decodeEntries_readEntries:
  "decodeEntries E n buf tbl = (snd (readEntries E n buf), store (fst (readEntries E n buf)) tbl)"
  by (induction n arbitrary: buf tbl) (auto simp add: store_def split: sum.splits prod.splits)

text \<open>
  What \<^verbatim>\<open>Decode\<close> leaves in the destination, whether it fails or not: the entries the
  destination had, with the pairs read off the wire stored over them.
\<close>

lemma gob_Decode_entries:
  "entries (snd (gob_Decode E data mp)) = store (wire_entries E data) (entries mp)"
  by (simp add: gob_Decode_def decodeMap_def wire_entries_def decodeEntries_readEntries entries_def store_def
      split: sum.splits prod.splits)

lemma decodeEntries_encodeEntries:
  assumes "encodeEntries E ps = Inr bs"
    and "\<forall>(k, v) \<in> set ps. roundtrips (enc_key E) (dec_key E) k \<and> roundtrips (enc_elem E) (dec_elem E) v"
  shows "decodeEntries E (length ps) (bs @ rest) tbl = (None, store ps tbl)"
  using assms
proof (induction ps arbitrary: bs tbl)
  case Nil
  then show ?case by (simp add: store_def)
next
  case (Cons p ps)
  obtain k v where p: "p = (k, v)" by (cases p)
  from Cons.prems(1) p obtain kb vb bs' where
    kb: "enc_key E k = Inr kb" and vb: "enc_elem E v = Inr vb" and
    bs': "encodeEntries E ps = Inr bs'" and bs: "bs = kb @ vb @ bs'"
    by (auto split: sum.splits)
  from Cons.prems(2) p kb have dk: "dec_key E (kb @ vb @ bs' @ rest) = Inr (k, vb @ bs' @ rest)"
    by (simp add: roundtrips_def)
  from Cons.prems(2) p vb have dv: "dec_elem E (vb @ bs' @ rest) = Inr (v, bs' @ rest)"
    by (simp add: roundtrips_def)
  from Cons.prems(2)
  have "\<forall>(k, v) \<in> set ps. roundtrips (enc_key E) (dec_key E) k \<and> roundtrips (enc_elem E) (dec_elem E) v"
    by simp
  from Cons.IH [OF bs' this]
  have "decodeEntries E (length ps) (bs' @ rest) (tbl(k \<mapsto> v)) = (None, store ps (tbl(k \<mapsto> v)))" .
  with dk dv bs p show ?case by (simp add: store_def)
qed

lemma decodeMap_encodeMap:
  assumes "encodeMap E ps = Inr body"
    and "\<forall>(k, v) \<in> set ps. roundtrips (enc_key E) (dec_key E) k \<and> roundtrips (enc_elem E) (dec_elem E) v"
    and "length ps < 2 ^ 63"
  shows "decodeMap E body mp = (None, Some (store ps (entries mp)))"
proof -
  from assms(1) obtain bs where bs: "encodeEntries E ps = Inr bs"
    and body: "body = encodeUint (of_nat (length ps)) @ bs"
    by (auto simp add: encodeMap_def split: sum.splits)
  from decodeEntries_encodeEntries [OF bs assms(2), of "[]"]
  have "decodeEntries E (length ps) bs (entries mp) = (None, store ps (entries mp))" by simp
  with body show ?thesis
    by (simp add: decodeMap_def decodeUint_encodeUint count_roundtrip [OF assms(3)])
qed

lemma gob_Decode_roundtrip:
  assumes "gob_Encode E ps = Inr data" and "serializable E ps" and "length ps < 2 ^ 63"
  shows "gob_Decode E data mp = (None, Some (store ps (entries mp)))"
proof -
  from assms(1) obtain body where body: "encodeMap E ps = Inr body" and data: "enc_frame E body = Inr data"
    by (auto simp add: gob_Encode_def split: sum.splits)
  from assms(2) body data have "dec_frame E data = Inr body"
    by (simp add: serializable_def)
  moreover from assms(2)
  have "\<forall>(k, v) \<in> set ps. roundtrips (enc_key E) (dec_key E) k \<and> roundtrips (enc_elem E) (dec_elem E) v"
    by (simp add: serializable_def)
  from decodeMap_encodeMap [OF body this assms(3)]
  have "decodeMap E body mp = (None, Some (store ps (entries mp)))" .
  ultimately show ?thesis by (simp add: gob_Decode_def)
qed

subsection \<open>Iteration over a map\<close>

lemma go_range_Nil: "go_range [] mp = []"
  by (simp add: go_range_def List.map_filter_def)

lemma go_range_Cons:
  "go_range (k # ks) mp =
     (case entries mp k of None \<Rightarrow> go_range ks mp | Some v \<Rightarrow> (k, v) # go_range ks mp)"
  by (simp add: go_range_def List.map_filter_def split: option.splits)

lemma length_go_range: "length (go_range order mp) \<le> length order"
  by (induction order) (auto simp add: go_range_Nil go_range_Cons split: option.splits)

lemma store_go_range:
  "store (go_range order mp) tbl k =
     (if k \<in> set order \<and> entries mp k \<noteq> None then entries mp k else tbl k)"
proof (induction order arbitrary: tbl)
  case Nil
  then show ?case by (simp add: go_range_Nil store_def)
next
  case (Cons a order)
  show ?case
  proof (cases "entries mp a")
    case None
    then have "store (go_range (a # order) mp) tbl = store (go_range order mp) tbl"
      by (simp add: go_range_Cons)
    with Cons.IH [of tbl] None show ?thesis by auto
  next
    case (Some v)
    then have "store (go_range (a # order) mp) tbl k = store (go_range order mp) (tbl(a \<mapsto> v)) k"
      by (simp add: go_range_Cons store_def)
    also have "\<dots> = (if k \<in> set order \<and> entries mp k \<noteq> None then entries mp k else (tbl(a \<mapsto> v)) k)"
      by (rule Cons.IH)
    also have "\<dots> = (if k \<in> set (a # order) \<and> entries mp k \<noteq> None then entries mp k else tbl k)"
      using Some by auto
    finally show ?thesis .
  qed
qed

lemma store_go_range_all:
  assumes "set order = dom (entries mp)"
  shows "store (go_range order mp) tbl = tbl ++ entries mp"
proof
  fix k
  from assms have "k \<in> set order \<longleftrightarrow> entries mp k \<noteq> None" by (auto simp add: dom_def)
  then show "store (go_range order mp) tbl k = (tbl ++ entries mp) k"
    by (auto simp add: store_go_range map_add_def split: option.splits)
qed

subsection \<open>The two methods\<close>

lemma GobEncode_eq:
  "GobEncode E order cm =
     (case gob_Encode E (go_range order (m cm)) of
        Inl err \<Rightarrow> (Inl (Errorf ''gob encode error: '' err), cm)
      | Inr bs \<Rightarrow> (Inr bs, cm))"
  by (simp add: GobEncode_def lock_defs split: sum.splits)

lemma GobDecode_eq:
  "GobDecode E data cm =
     (case gob_Decode E data (m cm) of
        (r, mp) \<Rightarrow> (map_option (Errorf ''gob decode error: '') r, cm\<lparr>m := mp\<rparr>))"
  by (simp add: GobDecode_def lock_defs split: prod.splits option.splits)

lemma GobDecode_entries:
  "entries (m (snd (GobDecode E data cm))) = store (wire_entries E data) (entries (m cm))"
  using gob_Decode_entries [of E data "m cm"]
  by (cases "gob_Decode E data (m cm)") (simp add: GobDecode_eq)

text \<open>Rules that evaluate the model on the byte strings of the examples.\<close>

lemma decodeEntries_numeral:
  "decodeEntries E (numeral n) buf tbl =
     (case dec_key E buf of
        Inl err \<Rightarrow> (Some err, tbl)
      | Inr (k, buf1) \<Rightarrow>
          (case dec_elem E buf1 of
             Inl err \<Rightarrow> (Some err, tbl)
           | Inr (v, buf2) \<Rightarrow> decodeEntries E (pred_numeral n) buf2 (tbl(k \<mapsto> v))))"
  by (simp add: numeral_eq_Suc)

lemma byte_minus_one: "(- 1 :: byte) = 0xFF"
  by simp

lemmas wire_defs =
  encodeUint_def decodeUint_def decodeUintReader_def be_bytes_def be_uint_def encodeInt_def toInt_def
  decodeInt_def nextInt_def tooBig_def recvMessage_def word_sless_alt byte_minus_one

lemmas gob_defs =
  encodeMap_def decodeMap_def gob_Encode_def gob_Decode_def go_range_def List.map_filter_def
  GobEncode_def GobDecode_def decodeEntries_numeral

lemmas engine_defs =
  gob_string_int_def encString_def decString_def encInt_def decInt_def
  byte_of_char_def char_of_byte_def char_of_def bit_0 sendValue_def recvValue_def
  wire_map_string_int_def

subsection \<open>Strings and integers are serializable\<close>

text \<open>
  The engine of \<^verbatim>\<open>map[string]int\<close> reads back what it writes: signed integers, strings
  shorter than the largest message, and the two messages around the body.
\<close>

lemma sign_bit: "(i :: int64) <s 0 \<longleftrightarrow> bit i 63"
  using bit_last_iff [of i] by (simp add: word_sless_alt)

lemma bit_shl1: "bit (push_bit 1 (a :: uint64)) n \<longleftrightarrow> 0 < n \<and> n < 64 \<and> bit a (n - 1)"
  unfolding bit_push_bit_iff by (auto simp add: possible_bit_word dest: bit_imp_le_length)

lemma bit_shr1: "bit (drop_bit 1 (a :: uint64)) n \<longleftrightarrow> bit a (Suc n)"
  unfolding bit_drop_bit_eq by simp

lemma toInt_nonneg:
  assumes "\<not> bit i 63"
  shows "toInt (push_bit 1 i) = (i :: int64)"
proof -
  have "push_bit 1 i AND 1 = (0 :: uint64)"
  proof (rule bit_word_eqI)
    fix n assume "n < LENGTH(64)"
    show "bit (push_bit 1 i AND 1) n = bit (0 :: uint64) n"
      unfolding bit_and_iff bit_shl1 bit_1_iff by auto
  qed
  moreover have "drop_bit 1 (push_bit 1 i) = i"
  proof (rule bit_word_eqI)
    fix n assume "n < LENGTH(64)"
    with assms show "bit (drop_bit 1 (push_bit 1 i)) n = bit i n"
      unfolding bit_shr1 bit_shl1 by (cases "n = 63") auto
  qed
  ultimately show ?thesis by (simp only: toInt_def) simp
qed

lemma toInt_neg:
  assumes "bit i 63"
  shows "toInt (push_bit 1 (NOT i) OR 1) = (i :: int64)"
proof -
  have "bit ((push_bit 1 (NOT i) OR 1) AND 1 :: uint64) 0"
    by (simp add: bit_and_iff bit_or_iff bit_1_iff)
  then have "(push_bit 1 (NOT i) OR 1) AND 1 \<noteq> (0 :: uint64)"
    by auto
  moreover have "NOT (drop_bit 1 (push_bit 1 (NOT i) OR 1)) = i"
  proof (rule bit_word_eqI)
    fix n assume "n < LENGTH(64)"
    with assms show "bit (NOT (drop_bit 1 (push_bit 1 (NOT i) OR 1))) n = bit i n"
      unfolding bit_not_iff bit_shr1 bit_or_iff bit_shl1 by (cases "n = 63") (auto simp add: bit_simps)
  qed
  ultimately show ?thesis by (simp only: toInt_def) simp
qed

lemma decodeInt_encodeInt: "decodeInt (encodeInt i @ rest) = Inr (i, rest)"
proof (cases "i <s 0")
  case True
  then have "toInt (push_bit 1 (NOT i) OR 1) = i" by (simp only: sign_bit toInt_neg)
  with True show ?thesis
    by (simp only: decodeInt_def encodeInt_def decodeUint_encodeUint if_True) simp
next
  case False
  then have "\<not> bit i 63" by (simp add: sign_bit)
  then have "toInt (push_bit 1 i) = i" by (rule toInt_nonneg)
  with False show ?thesis
    by (simp only: decodeInt_def encodeInt_def decodeUint_encodeUint if_False) simp
qed

lemma decodeUintReader_encodeUint: "decodeUintReader (encodeUint x @ rest) = Inr (x, rest)"
proof -
  have "decodeUintReader (encodeUint x @ rest) = decodeUint (encodeUint x @ rest)"
    using decodeUint_encodeUint [of x rest]
    by (auto simp add: decodeUintReader_def decodeUint_def Let_def split: list.splits if_splits)
  then show ?thesis by (simp add: decodeUint_encodeUint)
qed

lemma nextInt_encodeInt: "nextInt (encodeInt i @ rest) = Inr (i, rest)"
  using decodeInt_encodeInt [of i rest]
  by (simp add: nextInt_def decodeInt_def encodeInt_def decodeUintReader_encodeUint decodeUint_encodeUint)

lemma char_of_byte_of_char: "char_of_byte (byte_of_char c) = c"
proof -
  have "(of_char c :: nat) < 256"
    by (metis of_char_mod_256 mod_less_divisor zero_less_numeral)
  then have "unat (of_nat (of_char c) :: byte) = of_char c"
    by (simp add: unat_of_nat)
  then show ?thesis by (simp add: char_of_byte_def byte_of_char_def)
qed

lemma unat_length:
  assumes "n < tooBig"
  shows "unat (of_nat n :: uint64) = n" and "sint (of_nat n :: uint64) = int n"
proof -
  from assms have n: "n < 2 ^ 33" by (simp add: tooBig_def)
  then have "n < 2 ^ 64" by (rule less_trans) simp
  then show "unat (of_nat n :: uint64) = n" by (simp add: unat_of_nat)
  from n have "n < 2 ^ 63" by (rule less_trans) simp
  then show "sint (of_nat n :: uint64) = int n"
    by (simp add: signed_of_nat signed_take_bit_int_eq_self)
qed

lemma decString_encString:
  assumes "length s < tooBig"
  shows "decString (encodeUint (of_nat (length s)) @ map byte_of_char s @ rest) = Inr (s, rest)"
proof -
  have "map char_of_byte (map byte_of_char s) = s"
    by (simp add: char_of_byte_of_char comp_def)
  with assms show ?thesis
    by (simp add: decString_def decodeUint_encodeUint unat_length(2) [OF assms])
qed

lemma recvMessage_encode:
  assumes "length msg < tooBig"
  shows "recvMessage (encodeUint (of_nat (length msg)) @ msg @ rest) = Inr (msg, rest)"
  using assms by (simp add: recvMessage_def decodeUintReader_encodeUint unat_length(1) [OF assms])

lemma recvValue_sendValue:
  assumes "sendValue tid wire body = Inr data"
  shows "recvValue tid wire data = Inr body"
proof -
  let ?d = "encodeInt (- tid) @ wire" and ?v = "encodeInt tid @ [0] @ body"
  from assms have d: "length ?d < tooBig" and v: "length ?v < tooBig"
    and data: "data = encodeUint (of_nat (length ?d)) @ ?d @ encodeUint (of_nat (length ?v)) @ ?v"
    by (auto simp add: sendValue_def Let_def split: if_splits)
  have 1: "recvMessage data = Inr (?d, encodeUint (of_nat (length ?v)) @ ?v)"
    unfolding data by (rule recvMessage_encode [OF d])
  have 2: "nextInt ?d = Inr (- tid, wire)" by (rule nextInt_encodeInt)
  have 3: "recvMessage (encodeUint (of_nat (length ?v)) @ ?v) = Inr (?v, [])"
    using recvMessage_encode [OF v, of "[]"] by simp
  have 4: "nextInt ?v = Inr (tid, [0] @ body)" by (rule nextInt_encodeInt)
  have 5: "decodeUint ([0] @ body) = Inr (0, body)" by (simp add: decodeUint_def)
  show ?thesis
    by (simp only: recvValue_def 1 2 3 4 5 sum.case prod.case simp_thms if_False)
qed

lemma length_encodeUint: "0 < length (encodeUint x)"
  by (simp add: encodeUint_def Let_def)

lemma encodeEntries_string_int_length:
  assumes "encodeEntries gob_string_int ps = Inr bs"
  shows "length ps \<le> length bs \<and> (\<forall>(k, v) \<in> set ps. length k < length bs)"
  using assms
proof (induction ps arbitrary: bs)
  case Nil
  then show ?case by simp
next
  case (Cons p ps)
  obtain k v where p: "p = (k, v)" by (cases p)
  from Cons.prems p obtain bs' where
    bs': "encodeEntries gob_string_int ps = Inr bs'"
    and bs: "bs = (encodeUint (of_nat (length k)) @ map byte_of_char k) @ encodeInt v @ bs'"
    by (auto simp add: gob_string_int_def encString_def encInt_def split: sum.splits)
  have "0 < length (encodeUint (of_nat (length k) :: uint64))"
    by (rule length_encodeUint)
  with bs have k: "length k < length bs" and le: "length bs' < length bs"
    by simp_all
  from Cons.IH [OF bs'] le have "length ps < length bs"
    and "\<forall>(k, v) \<in> set ps. length k < length bs"
    by auto
  with k p show ?case by simp
qed

lemma gob_string_int_serializable:
  assumes "\<forall>(k, v) \<in> set ps. length k < tooBig"
  shows "serializable gob_string_int ps"
proof -
  have "roundtrips encString decString k" if "length k < tooBig" for k
    using that by (simp add: roundtrips_def encString_def decString_encString)
  moreover have "roundtrips encInt decInt v" for v
    by (simp add: roundtrips_def encInt_def decInt_def decodeInt_encodeInt)
  ultimately show ?thesis
    using assms by (auto simp add: serializable_def gob_string_int_def recvValue_sendValue)
qed


subsection \<open>Round trip\<close>

text \<open>
  Decoding what \<^verbatim>\<open>Encode\<close> has written restores the mapping in every container that
  holds nothing but entries of that mapping: a newly constructed or cleared one, one
  with the nil map, or the encoded container itself.
\<close>

lemma length_go_range_eq:
  "set order \<subseteq> dom (entries mp) \<Longrightarrow> length (go_range order mp) = length order"
  by (induction order) (auto simp add: go_range_Nil go_range_Cons split: option.splits)

lemma GobDecode_GobEncode:
  assumes "set order = dom (entries (m cm))" and "length order < 2 ^ 63"
    and "serializable E (go_range order (m cm))"
    and "fst (GobEncode E order cm) = Inr data"
    and "entries (m tgt) \<subseteq>\<^sub>m entries (m cm)"
  shows "fst (GobDecode E data tgt) = None"
    and "entries (fst (Export (snd (GobDecode E data tgt)))) = entries (m cm)"
proof -
  let ?ps = "go_range order (m cm)"
  from assms(4) have enc: "gob_Encode E ?ps = Inr data"
    by (simp add: GobEncode_eq split: sum.splits)
  have "length ?ps < 2 ^ 63"
    using length_go_range [of order "m cm"] assms(2) by simp
  from gob_Decode_roundtrip [OF enc assms(3) this]
  have dec: "gob_Decode E data (m tgt) = (None, Some (store ?ps (entries (m tgt))))" .
  have "entries (m tgt) ++ entries (m cm) = entries (m cm)"
    using assms(5) by (simp add: map_add_le_mapI map_le_antisym)
  then have "store ?ps (entries (m tgt)) = entries (m cm)"
    by (simp add: store_go_range_all [OF assms(1)])
  with dec show "fst (GobDecode E data tgt) = None"
    and "entries (fst (Export (snd (GobDecode E data tgt)))) = entries (m cm)"
    by (simp_all add: GobDecode_eq Export_def ExportWithoutLock_def lock_defs go_collect_def entries_def)
qed

text \<open>
  For \<^verbatim>\<open>CacheMap[string, int]\<close> the round trip needs no assumption on the mapping: if
  \<^verbatim>\<open>Encode\<close> returns bytes, \<^verbatim>\<open>Decode\<close> of them into a newly constructed container
  restores the mapping.
\<close>

lemma string_int_roundtrip:
  assumes "set order = dom (entries (m cm))"
    and "fst (GobEncode gob_string_int order cm) = Inr data"
  shows "fst (GobDecode gob_string_int data NewCacheMap) = None \<and>
         entries (fst (Export (snd (GobDecode gob_string_int data NewCacheMap)))) = entries (m cm)"
proof -
  let ?ps = "go_range order (m cm)"
  from assms(2) have enc: "gob_Encode gob_string_int ?ps = Inr data"
    by (simp add: GobEncode_eq split: sum.splits)
  then obtain bs where bs: "encodeEntries gob_string_int ?ps = Inr bs"
    and data: "sendValue 65 wire_map_string_int (encodeUint (of_nat (length ?ps)) @ bs) = Inr data"
    by (auto simp add: gob_Encode_def encodeMap_def gob_string_int_def split: sum.splits)
  from data have "length bs < tooBig"
    by (auto simp add: sendValue_def Let_def split: if_splits)
  with encodeEntries_string_int_length [OF bs]
  have len: "length ?ps < tooBig" and keys: "\<forall>(k, v) \<in> set ?ps. length k < tooBig"
    by auto
  from len have "length ?ps < 2 ^ 33" by (simp add: tooBig_def)
  then have len63: "length ?ps < 2 ^ 63" by (rule less_trans) simp
  have "length order = length ?ps"
    using assms(1) by (simp add: length_go_range_eq)
  with len63 have "length order < 2 ^ 63" by simp
  moreover have "entries (m (NewCacheMap :: (string, int64) CacheMap)) \<subseteq>\<^sub>m entries (m cm)"
    by (simp add: NewCacheMap_def go_make_def entries_def)
  ultimately show ?thesis
    using GobDecode_GobEncode [OF assms(1) _ gob_string_int_serializable [OF keys] assms(2)]
    by simp
qed

subsection \<open>Claims\<close>

text \<open>
  Claim C3. Round trip. Let a container hold a mapping whose keys and elements are
  serializable, and let \<^verbatim>\<open>Encode\<close> return bytes for it (the iteration may visit the
  keys in any order; a Go map has fewer than \<open>2 ^ 63\<close> entries). Then \<^verbatim>\<open>Decode\<close> of these
  bytes into a newly constructed container succeeds, and \<^verbatim>\<open>Export()\<close> of that container
  has the same keys, with the same value for each key. The same holds when the bytes
  are decoded into the container itself after \<^verbatim>\<open>Clear()\<close>.
\<close>

theorem GobEncode_GobDecode_roundtrip:
  assumes "set order = dom (entries (m cm))" and "length order < 2 ^ 63"
    and "serializable E (go_range order (m cm))"
    and "fst (GobEncode E order cm) = Inr data"
  shows "fst (GobDecode E data NewCacheMap) = None \<and>
         entries (fst (Export (snd (GobDecode E data NewCacheMap)))) = entries (m cm) \<and>
         fst (GobDecode E data (Clear cm)) = None \<and>
         entries (fst (Export (snd (GobDecode E data (Clear cm))))) = entries (m cm)"
proof -
  have new: "entries (m (NewCacheMap :: ('a, 'b) CacheMap)) \<subseteq>\<^sub>m entries (m cm)"
    by (simp add: NewCacheMap_def go_make_def entries_def)
  have "Clear cm = NewCacheMap"
    by (simp add: Clear_def ClearWithoutLock_def NewCacheMap_def lock_defs)
  with GobDecode_GobEncode [OF assms new] show ?thesis by simp
qed

theorem GobEncode_GobDecode_roundtrip_witness:
  "set [''x'', ''y''] = dom (entries (m cm_xy)) \<and>
   length [''x'', ''y''] < 2 ^ 63 \<and>
   serializable gob_string_int
     (go_range [''x'', ''y''] (m cm_xy)) \<and>
   fst (GobEncode gob_string_int [''x'', ''y''] cm_xy)
     = Inr bytes_xy \<and>
   fst (GobDecode gob_string_int bytes_xy NewCacheMap) = None \<and>
   entries (fst (Export (snd (GobDecode gob_string_int bytes_xy NewCacheMap))))
     = [''x'' \<mapsto> 10, ''y'' \<mapsto> 20] \<and>
   fst (Len (Clear cm_xy)) = 0 \<and>
   entries (fst (Export (snd (GobDecode gob_string_int bytes_xy (Clear cm_xy)))))
     = [''x'' \<mapsto> 10, ''y'' \<mapsto> 20]"
proof -
  let ?cm = "cm_xy"
  have cm: "m ?cm = Some [''x'' \<mapsto> 10, ''y'' \<mapsto> 20]"
    by (simp add: cm_xy_def method_defs lock_defs gomap_defs)
  have h1: "set [''x'', ''y''] = dom (entries (m ?cm))"
    by (auto simp add: cm entries_def)
  have h2: "length [''x'', ''y''] < 2 ^ 63" by simp
  have ps: "go_range [''x'', ''y''] (m ?cm) = [(''x'', 10), (''y'', 20)]"
    by (simp add: cm go_range_def List.map_filter_def entries_def)
  have h3: "serializable gob_string_int (go_range [''x'', ''y''] (m ?cm))"
    unfolding ps serializable_def roundtrips_def
    by (simp add: wire_defs gob_defs engine_defs bytes_xy_def)
  have h4: "fst (GobEncode gob_string_int [''x'', ''y''] ?cm) = Inr bytes_xy"
    by (simp add: cm wire_defs gob_defs engine_defs bytes_xy_def lock_defs entries_def)
  have e: "entries (m ?cm) = [''x'' \<mapsto> 10, ''y'' \<mapsto> 20]"
    by (simp add: cm entries_def)
  have l: "fst (Len (Clear cm_xy)) = 0"
    by (simp add: method_defs lock_defs gomap_defs)
  from GobEncode_GobDecode_roundtrip [OF h1 h2 h3 h4] h1 h2 h3 h4 e l show ?thesis
    by simp
qed

text \<open>
  Claim C9. When the encoder fails on the current contents with an error \<open>cause\<close>,
  \<^verbatim>\<open>Encode\<close> returns no bytes but the error \<^verbatim>\<open>gob encode error: \<close>\<open>cause\<close>, which unwraps
  to \<open>cause\<close>, and the container is what it was before the call. \<^verbatim>\<open>Encode\<close> never
  changes the container, whether it fails or not.
\<close>

theorem GobEncode_failure:
  assumes "gob_Encode E (go_range order (m cm)) = Inl cause"
  shows "fst (GobEncode E order cm) = Inl (Errorf ''gob encode error: '' cause) \<and>
         Unwrap (Errorf ''gob encode error: '' cause) = Some cause \<and>
         snd (GobEncode E order cm) = cm \<and>
         snd (GobEncode E order' cm') = cm'"
  using assms by (simp add: GobEncode_eq split: sum.splits)

theorem GobEncode_failure_witness:
  "gob_Encode gob_string_any (go_range [''a''] (m (snd (Set ''a'' ''main.T'' NewCacheMap))))
     = Inl (GobError ''type not registered for interface: main.T'') \<and>
   fst (GobEncode gob_string_any [''a''] (snd (Set ''a'' ''main.T'' NewCacheMap)))
     = Inl (Errorf ''gob encode error: '' (GobError ''type not registered for interface: main.T'')) \<and>
   fst (Get [] ''a'' (snd (GobEncode gob_string_any [''a''] (snd (Set ''a'' ''main.T'' NewCacheMap)))))
     = (''main.T'', True)"
proof -
  let ?cm = "snd (Set ''a'' ''main.T'' NewCacheMap) :: (string, string) CacheMap"
  have cm: "m ?cm = Some [''a'' \<mapsto> ''main.T'']"
    by (simp add: method_defs lock_defs gomap_defs)
  have h: "gob_Encode gob_string_any (go_range [''a''] (m ?cm))
             = Inl (GobError ''type not registered for interface: main.T'')"
    by (simp add: cm wire_defs gob_defs engine_defs gob_string_any_def entries_def)
  have g: "fst (Get [] ''a'' ?cm) = (''main.T'', True)"
    by (simp add: cm Get_eq go_index_def entries_def)
  from GobEncode_failure [OF h, of "[]" ?cm] h g show ?thesis
    by simp
qed

text \<open>
  Claim C1, as the code has it. When the decoder fails on the bytes with an error
  \<open>cause\<close>, \<^verbatim>\<open>Decode\<close> returns the error \<^verbatim>\<open>gob decode error: \<close>\<open>cause\<close>, which unwraps to
  \<open>cause\<close>. Every key that is not among the pairs decoded before the failure is bound
  as before: \<^verbatim>\<open>Get\<close> returns for it what it returned before the call. In particular,
  when the failure comes before the first pair has been decoded, the contents are
  exactly what they were.
\<close>

theorem GobDecode_failure:
  assumes "fst (gob_Decode E data (m cm)) = Some cause"
  shows "fst (GobDecode E data cm) = Some (Errorf ''gob decode error: '' cause) \<and>
         Unwrap (Errorf ''gob decode error: '' cause) = Some cause \<and>
         (\<forall>k. k \<notin> fst ` set (wire_entries E data) \<longrightarrow>
              fst (Get zero k (snd (GobDecode E data cm))) = fst (Get zero k cm)) \<and>
         (wire_entries E data = [] \<longrightarrow>
              entries (m (snd (GobDecode E data cm))) = entries (m cm))"
proof -
  from assms have "fst (GobDecode E data cm) = Some (Errorf ''gob decode error: '' cause)"
    by (cases "gob_Decode E data (m cm)") (simp add: GobDecode_eq)
  moreover have "fst (Get zero k (snd (GobDecode E data cm))) = fst (Get zero k cm)"
    if "k \<notin> fst ` set (wire_entries E data)" for k
    using that by (simp add: Get_eq go_index_def GobDecode_entries store_other)
  moreover have "entries (m (snd (GobDecode E data cm))) = entries (m cm)"
    if "wire_entries E data = []"
    using that by (simp add: GobDecode_entries store_def)
  ultimately show ?thesis by simp
qed

theorem GobDecode_failure_witness:
  "fst (GobDecode gob_string_int bytes_truncated cm_a1)
     = Some (Errorf ''gob decode error: '' ErrUnexpectedEOF) \<and>
   fst (GobDecode gob_string_int bytes_malformed cm_a1)
     = Some (Errorf ''gob decode error: '' (GobError ''encoded unsigned integer out of range'')) \<and>
   fst (GobDecode gob_string_int bytes_other_type cm_a1)
     = Some (Errorf ''gob decode error: '' (GobError ''type mismatch'')) \<and>
   wire_entries gob_string_int bytes_truncated = [] \<and>
   wire_entries gob_string_int bytes_malformed = [] \<and>
   wire_entries gob_string_int bytes_other_type = [] \<and>
   fst (Get 0 ''a'' cm_a1) = (1, True) \<and>
   fst (Get 0 ''a'' (snd (GobDecode gob_string_int bytes_truncated cm_a1))) = (1, True) \<and>
   fst (Get 0 ''a'' (snd (GobDecode gob_string_int bytes_malformed cm_a1))) = (1, True) \<and>
   fst (Get 0 ''a'' (snd (GobDecode gob_string_int bytes_other_type cm_a1))) = (1, True) \<and>
   entries (m (snd (GobDecode gob_string_int bytes_truncated cm_a1))) = entries (m cm_a1) \<and>
   entries (m (snd (GobDecode gob_string_int bytes_malformed cm_a1))) = entries (m cm_a1) \<and>
   entries (m (snd (GobDecode gob_string_int bytes_other_type cm_a1))) = entries (m cm_a1)"
proof -
  have cm: "m cm_a1 = Some [''a'' \<mapsto> 1]"
    by (simp add: cm_a1_def method_defs lock_defs gomap_defs)
  have h1: "fst (gob_Decode gob_string_int bytes_truncated (m cm_a1)) = Some ErrUnexpectedEOF"
    by (simp add: cm wire_defs gob_defs engine_defs bytes_truncated_def)
  have h2: "fst (gob_Decode gob_string_int bytes_malformed (m cm_a1))
              = Some (GobError ''encoded unsigned integer out of range'')"
    by (simp add: cm wire_defs gob_defs engine_defs bytes_malformed_def)
  have h3: "fst (gob_Decode gob_string_int bytes_other_type (m cm_a1)) = Some (GobError ''type mismatch'')"
    by (simp add: cm wire_defs gob_defs engine_defs bytes_other_type_def)
  have w1: "wire_entries gob_string_int bytes_truncated = []"
    by (simp add: wire_entries_def wire_defs gob_defs engine_defs bytes_truncated_def)
  have w2: "wire_entries gob_string_int bytes_malformed = []"
    by (simp add: wire_entries_def wire_defs gob_defs engine_defs bytes_malformed_def)
  have w3: "wire_entries gob_string_int bytes_other_type = []"
    by (simp add: wire_entries_def wire_defs gob_defs engine_defs bytes_other_type_def)
  have g: "fst (Get 0 ''a'' cm_a1) = (1, True)"
    by (simp add: cm Get_eq go_index_def entries_def)
  from GobDecode_failure [OF h1, of 0] GobDecode_failure [OF h2, of 0] GobDecode_failure [OF h3, of 0]
    w1 w2 w3 g
  show ?thesis by simp
qed

text \<open>
  Claim C1 as stated fails. The container holds \<^verbatim>\<open>"a": 1\<close>. The bytes announce a map of
  two entries; the first, \<^verbatim>\<open>"a": 7\<close>, is well formed, the key of the second is cut short.
  \<^verbatim>\<open>Decode\<close> returns an error, and \<^verbatim>\<open>Get("a")\<close> returns \<open>(7, true)\<close> afterwards: the first
  entry was stored before the failure.
\<close>

theorem GobDecode_failure_counterexample:
  "fst (Get 0 ''a'' cm_a1) = (1, True) \<and>
   fst (GobDecode gob_string_int bytes_bad_second_key cm_a1)
     = Some (Errorf ''gob decode error: '' (GobError ''bad string slice length'')) \<and>
   fst (Get 0 ''a'' (snd (GobDecode gob_string_int bytes_bad_second_key cm_a1)))
     = (7, True)"
proof -
  have cm: "cm_a1 = \<lparr>m = Some [''a'' \<mapsto> 1]\<rparr>"
    by (simp add: cm_a1_def method_defs lock_defs gomap_defs)
  have "GobDecode gob_string_int bytes_bad_second_key \<lparr>m = Some [''a'' \<mapsto> 1]\<rparr>
          = (Some (Errorf ''gob decode error: '' (GobError ''bad string slice length'')),
             \<lparr>m = Some [''a'' \<mapsto> 7]\<rparr>)"
    by (simp add: wire_defs gob_defs engine_defs bytes_bad_second_key_def lock_defs entries_def)
  then show ?thesis
    by (simp add: cm Get_eq go_index_def entries_def)
qed

text \<open>
  Claim C2 fails on the code. The container holds \<^verbatim>\<open>"a": 1\<close> and the bytes are the
  encoding of \<^verbatim>\<open>map[string]int{"b": 2}\<close>. \<^verbatim>\<open>Decode\<close> succeeds, and afterwards the
  container holds both entries: the decoder has stored \<^verbatim>\<open>"b": 2\<close> into the map that was
  there, and \<^verbatim>\<open>"a": 1\<close> has survived.
\<close>

theorem GobDecode_keeps_prior_entries:
  "fst (GobDecode gob_string_int bytes_b2 cm_a1) = None \<and>
   fst (Get 0 ''b'' (snd (GobDecode gob_string_int bytes_b2 cm_a1))) = (2, True) \<and>
   fst (Get 0 ''a'' (snd (GobDecode gob_string_int bytes_b2 cm_a1))) = (1, True) \<and>
   fst (Len (snd (GobDecode gob_string_int bytes_b2 cm_a1))) = 2"
proof -
  have cm: "cm_a1 = \<lparr>m = Some [''a'' \<mapsto> 1]\<rparr>"
    by (simp add: cm_a1_def method_defs lock_defs gomap_defs)
  have "GobDecode gob_string_int bytes_b2 \<lparr>m = Some [''a'' \<mapsto> 1]\<rparr>
          = (None, \<lparr>m = Some [''a'' \<mapsto> 1, ''b'' \<mapsto> 2]\<rparr>)"
    by (simp add: wire_defs gob_defs engine_defs bytes_b2_def lock_defs entries_def)
  then show ?thesis
    by (simp add: cm Get_eq go_index_def entries_def Len_def LenWithoutLock_def lock_defs go_len_def)
qed



end
